theory Spec2Isabelle
  imports Complex_Main
begin

section \<open>The game state of script.ts\<close>

text \<open>
  The script keeps its whole state in module-level variables. They are gathered here in
  the record \<open>game\<close>; every function of the script that assigns to one of them takes
  the record and returns the updated one. Rendering (\<open>clearBoard\<close>, \<open>drawFood\<close>,
  \<open>drawSnake\<close>, the score text) writes to the canvas and the DOM only and is left out.

  Coordinates, velocities and the score are JavaScript numbers holding integers; they are
  modelled as unbounded \<open>int\<close>. The value returned by \<open>Math.random()\<close> is modelled as
  a \<open>real\<close> that the caller passes in, one draw for each call in source order.
\<close>

definition unitSize :: int where
  "unitSize = 25"

text \<open>One element of the array \<open>snake\<close>: an object \<open>{x, y}\<close>.\<close>

record segment =
  x :: int
  y :: int

text \<open>
  \<open>gameWidth\<close> and \<open>gameHeight\<close> are read once from the canvas element, which is not
  part of the script; they are parameters of the model.
\<close>

record board =
  gameWidth :: int
  gameHeight :: int

text \<open>
  \<open>foodX\<close> and \<open>foodY\<close> are declared without an initial value, so they hold
  \<open>undefined\<close> (\<open>None\<close>) until \<open>createFood\<close> first runs.
\<close>

record game =
  running :: bool
  xVelocity :: int
  yVelocity :: int
  foodX :: "int option"
  foodY :: "int option"
  score :: int
  snake :: "segment list"

text \<open>Reading \<open>snake[0].x\<close> on an empty array throws a \<open>TypeError\<close>.\<close>

datatype error = TypeError

text \<open>The values of the module-level declarations (lines 12 to 24), before \<open>gameStart()\<close>.\<close>

definition initialGlobals :: game where
  "initialGlobals =
     \<lparr>running = False, xVelocity = unitSize, yVelocity = 0,
      foodX = None, foodY = None, score = 0,
      snake = [\<lparr>x = unitSize * 4, y = 0\<rparr>,
               \<lparr>x = unitSize * 3, y = 0\<rparr>,
               \<lparr>x = unitSize * 2, y = 0\<rparr>,
               \<lparr>x = unitSize, y = 0\<rparr>,
               \<lparr>x = 0, y = 0\<rparr>]\<rparr>"

section \<open>Food placement\<close>

text \<open>\<open>Math.round\<close>: the nearest integer, a tie going up.\<close>

definition Math_round :: "real \<Rightarrow> int" where
  "Math_round v = \<lfloor>v + 1 / 2\<rfloor>"

text \<open>The local function \<open>randomFood(min, max)\<close>; \<open>rnd\<close> is the draw of \<open>Math.random()\<close>.\<close>

definition randomFood :: "real \<Rightarrow> int \<Rightarrow> int \<Rightarrow> int" where
  "randomFood rnd mn mx =
     Math_round ((rnd * of_int (mx - mn) + of_int mn) / of_int unitSize) * unitSize"

text \<open>Both calls of the source pass \<open>gameWidth - unitSize\<close> as the upper end.\<close>

definition createFood :: "board \<Rightarrow> real \<Rightarrow> real \<Rightarrow> game \<Rightarrow> game" where
  "createFood b r1 r2 s =
     s\<lparr>foodX := Some (randomFood r1 0 (gameWidth b - unitSize)),
       foodY := Some (randomFood r2 0 (gameWidth b - unitSize))\<rparr>"

text \<open>
  \<open>gameStart\<close> sets the flag and creates the food. Its last statement, \<open>nextTick()\<close>,
  only arms the timer: the first frame runs later, as a step of its own.
\<close>

definition gameStart :: "board \<Rightarrow> real \<Rightarrow> real \<Rightarrow> game \<Rightarrow> game" where
  "gameStart b r1 r2 s = createFood b r1 r2 (s\<lparr>running := True\<rparr>)"

section \<open>Movement\<close>

text \<open>
  \<open>moveSnake\<close>: \<open>unshift\<close> puts the new head in front, so \<open>snake[0]\<close> in the test is
  the new head; \<open>pop\<close> drops the last element. The two draws are used only when the food
  is eaten.
\<close>

definition moveSnake :: "board \<Rightarrow> real \<Rightarrow> real \<Rightarrow> game \<Rightarrow> error + game" where
  "moveSnake b r1 r2 s =
     (case snake s of
        [] \<Rightarrow> Inl TypeError
      | h # _ \<Rightarrow>
          let headOfSnake = \<lparr>x = x h + xVelocity s, y = y h + yVelocity s\<rparr>;
              s1 = s\<lparr>snake := headOfSnake # snake s\<rparr>
          in if Some (x (snake s1 ! 0)) = foodX s1 \<and> Some (y (snake s1 ! 0)) = foodY s1
             then Inr (createFood b r1 r2 (s1\<lparr>score := score s1 + 1\<rparr>))
             else Inr (s1\<lparr>snake := butlast (snake s1)\<rparr>))"

section \<open>Direction changes\<close>

text \<open>
  \<open>changeDirection\<close> reads \<open>event.key\<close>. The \<open>switch (true)\<close> runs the first case
  whose condition holds, and nothing when none does.
\<close>

definition changeDirection :: "string \<Rightarrow> game \<Rightarrow> game" where
  "changeDirection keyPressed s =
     (let goingLeft = (xVelocity s = - unitSize);
          goingUp = (yVelocity s = - unitSize);
          goingRight = (xVelocity s = unitSize);
          goingDown = (yVelocity s = unitSize)
      in if keyPressed = ''ArrowLeft'' \<and> \<not> goingRight
         then s\<lparr>xVelocity := - unitSize, yVelocity := 0\<rparr>
         else if keyPressed = ''ArrowUp'' \<and> \<not> goingDown
         then s\<lparr>yVelocity := - unitSize, xVelocity := 0\<rparr>
         else if keyPressed = ''ArrowRight'' \<and> \<not> goingLeft
         then s\<lparr>xVelocity := unitSize, yVelocity := 0\<rparr>
         else if keyPressed = ''ArrowDown'' \<and> \<not> goingUp
         then s\<lparr>yVelocity := unitSize, xVelocity := 0\<rparr>
         else s)"

section \<open>Collision check\<close>

text \<open>
  The \<open>for\<close> loop of \<open>checkGameOver\<close>, entered with \<open>i = 1\<close>: it compares every
  later element with \<open>snake[0]\<close> and clears the flag on a match, without leaving the loop.
\<close>

function bodyLoop :: "nat \<Rightarrow> game \<Rightarrow> game" where
  "bodyLoop i s =
     (if i < length (snake s)
      then bodyLoop (i + 1)
             (if x (snake s ! i) = x (snake s ! 0) \<and> y (snake s ! i) = y (snake s ! 0)
              then s\<lparr>running := False\<rparr> else s)
      else s)"
  by pat_completeness auto
termination
  by (relation "measure (\<lambda>(i, s). length (snake s) - i)") auto

declare bodyLoop.simps [simp del]

text \<open>The four boundary cases of the \<open>switch (true)\<close>, then the loop.\<close>

definition checkGameOver :: "board \<Rightarrow> game \<Rightarrow> error + game" where
  "checkGameOver b s =
     (case snake s of
        [] \<Rightarrow> Inl TypeError
      | h # _ \<Rightarrow>
          let s1 = (if x h < 0 then s\<lparr>running := False\<rparr>
                    else if x h \<ge> gameWidth b then s\<lparr>running := False\<rparr>
                    else if y h < 0 then s\<lparr>running := False\<rparr>
                    else if y h \<ge> gameHeight b then s\<lparr>running := False\<rparr>
                    else s)
          in Inr (bodyLoop 1 s1))"

definition displayGameOver :: "game \<Rightarrow> game" where
  "displayGameOver s = s\<lparr>running := False\<rparr>"

section \<open>One frame, and reset\<close>

text \<open>
  The body of the timer callback in \<open>nextTick\<close>, without its drawing calls:
  \<open>moveSnake()\<close> then \<open>checkGameOver()\<close>.
\<close>

definition tick :: "board \<Rightarrow> real \<Rightarrow> real \<Rightarrow> game \<Rightarrow> error + game" where
  "tick b r1 r2 s =
     (case moveSnake b r1 r2 s of
        Inl e \<Rightarrow> Inl e
      | Inr s1 \<Rightarrow> checkGameOver b s1)"

definition resetGame :: "board \<Rightarrow> real \<Rightarrow> real \<Rightarrow> game \<Rightarrow> game" where
  "resetGame b r1 r2 s =
     gameStart b r1 r2
       (s\<lparr>score := 0, xVelocity := unitSize, yVelocity := 0,
          snake := [\<lparr>x = unitSize * 4, y = 0\<rparr>,
                    \<lparr>x = unitSize * 3, y = 0\<rparr>,
                    \<lparr>x = unitSize * 2, y = 0\<rparr>,
                    \<lparr>x = unitSize, y = 0\<rparr>,
                    \<lparr>x = 0, y = 0\<rparr>]\<rparr>)"

section \<open>Reachable states\<close>

text \<open>
  The states the script can be in after loading: the state left by the top-level call
  \<open>gameStart()\<close>, closed under every function an event or a timer can run. A pending
  timer callback is never cancelled, so \<open>moveSnake\<close> and \<open>checkGameOver\<close> are allowed
  in any reachable state, whatever the flag says; the state between the two counts as
  reachable as well.
\<close>

inductive reachable :: "board \<Rightarrow> game \<Rightarrow> bool" for b :: board where
  loaded: "reachable b (gameStart b r1 r2 initialGlobals)"
| moved: "reachable b s \<Longrightarrow> moveSnake b r1 r2 s = Inr s' \<Longrightarrow> reachable b s'"
| checked: "reachable b s \<Longrightarrow> checkGameOver b s = Inr s' \<Longrightarrow> reachable b s'"
| keydown: "reachable b s \<Longrightarrow> reachable b (changeDirection k s)"
| clicked: "reachable b s \<Longrightarrow> reachable b (resetGame b r1 r2 s)"
| ended: "reachable b s \<Longrightarrow> reachable b (displayGameOver s)"

text \<open>
  The velocities of the data model: one step of \<open>unitSize\<close> along one axis.
\<close>

definition unitStep :: "game \<Rightarrow> bool" where
  "unitStep s =
     (xVelocity s = unitSize \<and> yVelocity s = 0 \<or>
      xVelocity s = - unitSize \<and> yVelocity s = 0 \<or>
      xVelocity s = 0 \<and> yVelocity s = unitSize \<or>
      xVelocity s = 0 \<and> yVelocity s = - unitSize)"

section \<open>Food placement: where the food can land\<close>

lemma Math_round_range:
  assumes "0 \<le> v" and "v \<le> of_int k"
  shows "0 \<le> Math_round v \<and> Math_round v \<le> k"
  using assms unfolding Math_round_def by (simp add: floor_le_iff le_floor_iff)

lemma randomFood_range:
  assumes "0 \<le> r" and "r \<le> 1" and "0 \<le> k"
  shows "0 \<le> randomFood r 0 (k * unitSize) \<and> randomFood r 0 (k * unitSize) \<le> k * unitSize \<and>
         unitSize dvd randomFood r 0 (k * unitSize)"
proof -
  have scaled: "(r * of_int (k * unitSize - 0) + of_int 0) / of_int unitSize = r * of_int k"
    by (simp add: unitSize_def)
  have "0 \<le> r * of_int k"
    using assms by simp
  moreover have "r * of_int k \<le> of_int k"
    using assms by (simp add: mult_left_le_one_le)
  ultimately have "0 \<le> Math_round (r * of_int k) \<and> Math_round (r * of_int k) \<le> k"
    by (rule Math_round_range)
  then show ?thesis
    unfolding randomFood_def scaled by (simp add: unitSize_def)
qed

text \<open>
  What \<open>createFood\<close> does guarantee on a board whose width is a positive multiple of
  \<open>unitSize\<close>: both coordinates are multiples of \<open>unitSize\<close> between \<open>0\<close> and
  \<open>gameWidth - unitSize\<close>. The height of the board plays no part.
\<close>

lemma createFood_within_width:
  assumes "0 \<le> r1" and "r1 \<le> 1" and "0 \<le> r2" and "r2 \<le> 1"
    and "gameWidth b = k * unitSize" and "1 \<le> k"
  shows "\<exists>fx fy. foodX (createFood b r1 r2 s) = Some fx \<and> foodY (createFood b r1 r2 s) = Some fy \<and>
           unitSize dvd fx \<and> unitSize dvd fy \<and>
           0 \<le> fx \<and> fx \<le> gameWidth b - unitSize \<and>
           0 \<le> fy \<and> fy \<le> gameWidth b - unitSize"
proof -
  have upper: "gameWidth b - unitSize = (k - 1) * unitSize"
    using assms(5) by (simp add: algebra_simps)
  have "0 \<le> k - 1"
    using assms(6) by simp
  then show ?thesis
    using randomFood_range [of r1 "k - 1"] randomFood_range [of r2 "k - 1"] assms(1-4)
    unfolding createFood_def upper by simp
qed

lemma createFood_foodX_on_board:
  assumes "0 \<le> r1" and "r1 \<le> 1" and "0 \<le> r2" and "r2 \<le> 1"
    and "gameWidth b = k * unitSize" and "1 \<le> k"
  shows "\<exists>fx. foodX (createFood b r1 r2 s) = Some fx \<and> 0 \<le> fx \<and> fx < gameWidth b"
  using createFood_within_width [OF assms, of s] by (auto simp: unitSize_def)

lemma createFood_foodY_on_board_if_wide:
  assumes "0 \<le> r1" and "r1 \<le> 1" and "0 \<le> r2" and "r2 \<le> 1"
    and "gameWidth b = k * unitSize" and "1 \<le> k" and "gameWidth b \<le> gameHeight b"
  shows "\<exists>fy. foodY (createFood b r1 r2 s) = Some fy \<and> 0 \<le> fy \<and> fy < gameHeight b"
  using createFood_within_width [OF assms(1-6), of s] assms(7) by (auto simp: unitSize_def)

text \<open>
  Claim C1. After \<open>createFood\<close>, for draws in \<open>[0, 1]\<close> on a board whose width and
  height are positive multiples of \<open>unitSize\<close>, both food coordinates are multiples of
  \<open>unitSize\<close> inside the board, \<open>foodY\<close> in particular below the board's height.
  The script passes \<open>gameWidth - unitSize\<close> for \<open>foodY\<close> too, so on a board that is
  wider than it is high the food can land below the bottom edge: on a board of 500 by 250
  the draws \<open>0\<close> and \<open>3/4\<close> of the first \<open>gameStart()\<close> put the food at \<open>y = 350\<close>.
\<close>

theorem createFood_foodY_outside_board:
  "unitSize dvd gameWidth \<lparr>gameWidth = 500, gameHeight = 250\<rparr> \<and>
   unitSize dvd gameHeight \<lparr>gameWidth = 500, gameHeight = 250\<rparr> \<and>
   foodX (gameStart \<lparr>gameWidth = 500, gameHeight = 250\<rparr> 0 (3 / 4) initialGlobals) = Some 0 \<and>
   foodY (gameStart \<lparr>gameWidth = 500, gameHeight = 250\<rparr> 0 (3 / 4) initialGlobals) = Some 350 \<and>
   \<not> 350 < gameHeight \<lparr>gameWidth = 500, gameHeight = 250\<rparr>"
  by (simp add: gameStart_def createFood_def randomFood_def Math_round_def unitSize_def)

section \<open>Movement and growth\<close>

text \<open>
  Claim C2. On a state with a head, \<open>moveSnake\<close> returns normally and puts a new head,
  the old head plus the velocity, in front. When the new head is on the food, the score
  grows by one, new food is placed at the coordinates \<open>createFood\<close> computes from the
  two draws (each draw scaled to \<open>[0, gameWidth - 25]\<close>, divided by 25, rounded and
  multiplied by 25), all old segments stay and the snake is one longer; otherwise the
  last segment is dropped, and the length, the score and the food are as before. The flag \<open>running\<close> is not consulted, so this holds for running states
  in particular.
\<close>

theorem moveSnake_step:
  assumes "snake s = h # rest"
  shows "\<exists>s'. moveSnake b r1 r2 s = Inr s' \<and>
           hd (snake s') = \<lparr>x = x h + xVelocity s, y = y h + yVelocity s\<rparr> \<and>
           (if foodX s = Some (x h + xVelocity s) \<and> foodY s = Some (y h + yVelocity s)
            then score s' = score s + 1 \<and>
                 foodX s' = Some (\<lfloor>r1 * of_int (gameWidth b - 25) / 25 + 1 / 2\<rfloor> * 25) \<and>
                 foodY s' = Some (\<lfloor>r2 * of_int (gameWidth b - 25) / 25 + 1 / 2\<rfloor> * 25) \<and>
                 snake s' = \<lparr>x = x h + xVelocity s, y = y h + yVelocity s\<rparr> # snake s \<and>
                 length (snake s') = length (snake s) + 1
            else snake s' = \<lparr>x = x h + xVelocity s, y = y h + yVelocity s\<rparr> # butlast (snake s) \<and>
                 length (snake s') = length (snake s) \<and>
                 score s' = score s \<and> foodX s' = foodX s \<and> foodY s' = foodY s)"
  using assms
  by (auto simp: moveSnake_def createFood_def randomFood_def Math_round_def unitSize_def Let_def)

theorem moveSnake_step_witness:
  "(\<exists>s'. moveSnake \<lparr>gameWidth = 500, gameHeight = 500\<rparr> 0 0
           (gameStart \<lparr>gameWidth = 500, gameHeight = 500\<rparr> 0 0 initialGlobals) = Inr s' \<and>
         snake s' = [\<lparr>x = 125, y = 0\<rparr>, \<lparr>x = 100, y = 0\<rparr>, \<lparr>x = 75, y = 0\<rparr>,
                     \<lparr>x = 50, y = 0\<rparr>, \<lparr>x = 25, y = 0\<rparr>] \<and>
         score s' = 0) \<and>
   (\<exists>s'. moveSnake \<lparr>gameWidth = 500, gameHeight = 500\<rparr> (1 / 2) (3 / 4)
           (initialGlobals\<lparr>foodX := Some 125, foodY := Some 0\<rparr>) = Inr s' \<and>
         snake s' = [\<lparr>x = 125, y = 0\<rparr>, \<lparr>x = 100, y = 0\<rparr>, \<lparr>x = 75, y = 0\<rparr>,
                     \<lparr>x = 50, y = 0\<rparr>, \<lparr>x = 25, y = 0\<rparr>, \<lparr>x = 0, y = 0\<rparr>] \<and>
         score s' = 1 \<and> foodX s' = Some 250 \<and> foodY s' = Some 350)"
  using moveSnake_step [of "gameStart \<lparr>gameWidth = 500, gameHeight = 500\<rparr> 0 0 initialGlobals"
          "\<lparr>x = 100, y = 0\<rparr>"
          "[\<lparr>x = 75, y = 0\<rparr>, \<lparr>x = 50, y = 0\<rparr>, \<lparr>x = 25, y = 0\<rparr>, \<lparr>x = 0, y = 0\<rparr>]"
          "\<lparr>gameWidth = 500, gameHeight = 500\<rparr>" 0 0]
        moveSnake_step [of "initialGlobals\<lparr>foodX := Some 125, foodY := Some 0\<rparr>"
          "\<lparr>x = 100, y = 0\<rparr>"
          "[\<lparr>x = 75, y = 0\<rparr>, \<lparr>x = 50, y = 0\<rparr>, \<lparr>x = 25, y = 0\<rparr>, \<lparr>x = 0, y = 0\<rparr>]"
          "\<lparr>gameWidth = 500, gameHeight = 500\<rparr>" "1 / 2" "3 / 4"]
  by (auto simp: gameStart_def createFood_def initialGlobals_def unitSize_def randomFood_def
        Math_round_def)

section \<open>Direction changes keep the snake from reversing\<close>

text \<open>
  Claim C3. When the current velocity is one of the four unit steps, each arrow key sets
  the velocity to its own unit step (left \<open>(-u, 0)\<close>, up \<open>(0, -u)\<close>, right \<open>(u, 0)\<close>,
  down \<open>(0, u)\<close>) unless the current velocity is the exact reverse of that step, in
  which case the velocity stays as it is.
\<close>

theorem changeDirection_velocity:
  assumes "unitStep s"
  shows "(xVelocity (changeDirection ''ArrowLeft'' s), yVelocity (changeDirection ''ArrowLeft'' s)) =
           (if (xVelocity s, yVelocity s) = (unitSize, 0) then (xVelocity s, yVelocity s)
            else (- unitSize, 0)) \<and>
         (xVelocity (changeDirection ''ArrowUp'' s), yVelocity (changeDirection ''ArrowUp'' s)) =
           (if (xVelocity s, yVelocity s) = (0, unitSize) then (xVelocity s, yVelocity s)
            else (0, - unitSize)) \<and>
         (xVelocity (changeDirection ''ArrowRight'' s), yVelocity (changeDirection ''ArrowRight'' s)) =
           (if (xVelocity s, yVelocity s) = (- unitSize, 0) then (xVelocity s, yVelocity s)
            else (unitSize, 0)) \<and>
         (xVelocity (changeDirection ''ArrowDown'' s), yVelocity (changeDirection ''ArrowDown'' s)) =
           (if (xVelocity s, yVelocity s) = (0, - unitSize) then (xVelocity s, yVelocity s)
            else (0, unitSize))"
  using assms by (auto simp: changeDirection_def unitStep_def unitSize_def Let_def)

theorem changeDirection_velocity_witness:
  "unitStep initialGlobals \<and>
   xVelocity (changeDirection ''ArrowLeft'' initialGlobals) = 25 \<and>
   yVelocity (changeDirection ''ArrowLeft'' initialGlobals) = 0 \<and>
   xVelocity (changeDirection ''ArrowDown'' initialGlobals) = 0 \<and>
   yVelocity (changeDirection ''ArrowDown'' initialGlobals) = 25"
  using changeDirection_velocity [of initialGlobals]
  by (simp add: unitStep_def initialGlobals_def unitSize_def)

section \<open>The collision check\<close>

text \<open>The loop touches nothing but the flag.\<close>

lemma bodyLoop_frame: "\<exists>r. bodyLoop i s = s\<lparr>running := r\<rparr>"
proof (induction i s rule: bodyLoop.induct)
  case (1 i s)
  show ?case
  proof (cases "i < length (snake s)")
    case False
    then have "bodyLoop i s = s\<lparr>running := running s\<rparr>"
      by (subst bodyLoop.simps) simp
    then show ?thesis by blast
  next
    case True
    let ?s1 = "if x (snake s ! i) = x (snake s ! 0) \<and> y (snake s ! i) = y (snake s ! 0)
               then s\<lparr>running := False\<rparr> else s"
    from 1 [OF True] obtain r where r: "bodyLoop (i + 1) ?s1 = ?s1\<lparr>running := r\<rparr>"
      by blast
    have "bodyLoop i s = bodyLoop (i + 1) ?s1"
      using True by (subst bodyLoop.simps) simp
    with r have "bodyLoop i s = s\<lparr>running := r\<rparr>"
      by (simp split: if_splits)
    then show ?thesis by blast
  qed
qed

text \<open>The flag survives the loop from \<open>i\<close> on exactly when no later segment is on the head.\<close>

lemma bodyLoop_running:
  "running (bodyLoop i s) =
     (running s \<and> (\<forall>j. i \<le> j \<and> j < length (snake s) \<longrightarrow> snake s ! j \<noteq> snake s ! 0))"
proof (induction i s rule: bodyLoop.induct)
  case (1 i s)
  show ?case
  proof (cases "i < length (snake s)")
    case False
    then show ?thesis by (subst bodyLoop.simps) auto
  next
    case True
    let ?s1 = "if x (snake s ! i) = x (snake s ! 0) \<and> y (snake s ! i) = y (snake s ! 0)
               then s\<lparr>running := False\<rparr> else s"
    have unfolded: "bodyLoop i s = bodyLoop (i + 1) ?s1"
      using True by (subst bodyLoop.simps) simp
    have same_snake: "snake ?s1 = snake s"
      by simp
    have on_head: "(snake s ! i = snake s ! 0) =
        (x (snake s ! i) = x (snake s ! 0) \<and> y (snake s ! i) = y (snake s ! 0))"
      by auto
    have from_i: "(\<forall>j. i \<le> j \<and> j < length (snake s) \<longrightarrow> snake s ! j \<noteq> snake s ! 0) =
        (snake s ! i \<noteq> snake s ! 0 \<and>
         (\<forall>j. i + 1 \<le> j \<and> j < length (snake s) \<longrightarrow> snake s ! j \<noteq> snake s ! 0))"
      using True
      by (metis Suc_eq_plus1 Suc_leI le_neq_implies_less order_refl less_imp_le_nat Suc_le_lessD)
    show ?thesis
      unfolding unfolded 1 [OF True] same_snake from_i on_head by auto
  qed
qed

text \<open>\<open>checkGameOver\<close> in closed form, on a snake with a head.\<close>

lemma checkGameOver_cons:
  assumes "snake s = h # rest"
  shows "checkGameOver b s =
     Inr (s\<lparr>running := running s \<and> 0 \<le> x h \<and> x h < gameWidth b \<and> 0 \<le> y h \<and> y h < gameHeight b \<and>
             (\<forall>j. 1 \<le> j \<and> j < length (snake s) \<longrightarrow> snake s ! j \<noteq> snake s ! 0)\<rparr>)"
proof -
  let ?s1 = "(if x h < 0 then s\<lparr>running := False\<rparr>
              else if x h \<ge> gameWidth b then s\<lparr>running := False\<rparr>
              else if y h < 0 then s\<lparr>running := False\<rparr>
              else if y h \<ge> gameHeight b then s\<lparr>running := False\<rparr>
              else s)"
  have c: "checkGameOver b s = Inr (bodyLoop 1 ?s1)"
    using assms by (simp add: checkGameOver_def)
  obtain r where r: "bodyLoop 1 ?s1 = ?s1\<lparr>running := r\<rparr>"
    using bodyLoop_frame by blast
  have same_snake: "snake ?s1 = snake s"
    by simp
  have "running (bodyLoop 1 ?s1) =
      (running ?s1 \<and> (\<forall>j. 1 \<le> j \<and> j < length (snake s) \<longrightarrow> snake s ! j \<noteq> snake s ! 0))"
    unfolding bodyLoop_running same_snake ..
  with r have "r =
      (running ?s1 \<and> (\<forall>j. 1 \<le> j \<and> j < length (snake s) \<longrightarrow> snake s ! j \<noteq> snake s ! 0))"
    by simp
  with r c show ?thesis by (auto split: if_splits)
qed

text \<open>
  Claim C4. When the head is off the board (\<open>x < 0\<close>, \<open>x \<ge> gameWidth\<close>, \<open>y < 0\<close> or
  \<open>y \<ge> gameHeight\<close>), \<open>checkGameOver\<close> returns with the flag \<open>running\<close> cleared.
\<close>

theorem checkGameOver_boundary:
  assumes "snake s = h # rest"
    and "x h < 0 \<or> x h \<ge> gameWidth b \<or> y h < 0 \<or> y h \<ge> gameHeight b"
  shows "\<exists>s'. checkGameOver b s = Inr s' \<and> \<not> running s'"
  using assms(2) unfolding checkGameOver_cons [OF assms(1)] by auto

theorem checkGameOver_boundary_witness:
  "\<exists>s'. checkGameOver \<lparr>gameWidth = 500, gameHeight = 500\<rparr>
          (initialGlobals\<lparr>running := True,
             snake := [\<lparr>x = 500, y = 0\<rparr>, \<lparr>x = 475, y = 0\<rparr>]\<rparr>) = Inr s' \<and> \<not> running s'"
  using checkGameOver_boundary [of "initialGlobals\<lparr>running := True,
             snake := [\<lparr>x = 500, y = 0\<rparr>, \<lparr>x = 475, y = 0\<rparr>]\<rparr>"
          "\<lparr>x = 500, y = 0\<rparr>" "[\<lparr>x = 475, y = 0\<rparr>]" "\<lparr>gameWidth = 500, gameHeight = 500\<rparr>"]
  by simp

text \<open>
  Claim C5. When some segment at an index \<open>i \<ge> 1\<close> has the coordinates of the head,
  \<open>checkGameOver\<close> returns with the flag \<open>running\<close> cleared.
\<close>

theorem checkGameOver_self:
  assumes "1 \<le> i" and "i < length (snake s)"
    and "x (snake s ! i) = x (snake s ! 0)" and "y (snake s ! i) = y (snake s ! 0)"
  shows "\<exists>s'. checkGameOver b s = Inr s' \<and> \<not> running s'"
proof -
  from assms(2) obtain h rest where c: "snake s = h # rest"
    by (cases "snake s") auto
  have "snake s ! i = snake s ! 0"
    using assms(3,4) by simp
  then show ?thesis
    using assms(1,2) unfolding checkGameOver_cons [OF c] by auto
qed

theorem checkGameOver_self_witness:
  "\<exists>s'. checkGameOver \<lparr>gameWidth = 500, gameHeight = 500\<rparr>
          (initialGlobals\<lparr>running := True,
             snake := [\<lparr>x = 50, y = 25\<rparr>, \<lparr>x = 50, y = 50\<rparr>, \<lparr>x = 25, y = 50\<rparr>,
                       \<lparr>x = 25, y = 25\<rparr>, \<lparr>x = 50, y = 25\<rparr>, \<lparr>x = 75, y = 25\<rparr>]\<rparr>) = Inr s' \<and>
        \<not> running s'"
  using checkGameOver_self [of 4 "initialGlobals\<lparr>running := True,
             snake := [\<lparr>x = 50, y = 25\<rparr>, \<lparr>x = 50, y = 50\<rparr>, \<lparr>x = 25, y = 50\<rparr>,
                       \<lparr>x = 25, y = 25\<rparr>, \<lparr>x = 50, y = 25\<rparr>, \<lparr>x = 75, y = 25\<rparr>]\<rparr>"
          "\<lparr>gameWidth = 500, gameHeight = 500\<rparr>"]
  by simp

text \<open>
  Claim C9. \<open>checkGameOver\<close> changes the flag \<open>running\<close> only: on a snake with a head it
  returns a state with the same segments, velocity, food position and score. (On an
  empty snake it throws at its first read, before any assignment.)
\<close>

theorem checkGameOver_frame:
  assumes "snake s \<noteq> []"
  shows "\<exists>s'. checkGameOver b s = Inr s' \<and> snake s' = snake s \<and>
           xVelocity s' = xVelocity s \<and> yVelocity s' = yVelocity s \<and>
           foodX s' = foodX s \<and> foodY s' = foodY s \<and> score s' = score s"
proof -
  from assms obtain h rest where c: "snake s = h # rest"
    by (cases "snake s") auto
  show ?thesis
    unfolding checkGameOver_cons [OF c] by simp
qed

theorem checkGameOver_frame_witness:
  "\<exists>s'. checkGameOver \<lparr>gameWidth = 500, gameHeight = 500\<rparr>
          (initialGlobals\<lparr>running := True, snake := [\<lparr>x = 500, y = 0\<rparr>, \<lparr>x = 475, y = 0\<rparr>],
             foodX := Some 50, foodY := Some 75, score := 3\<rparr>) = Inr s' \<and>
        snake s' = [\<lparr>x = 500, y = 0\<rparr>, \<lparr>x = 475, y = 0\<rparr>] \<and>
        xVelocity s' = 25 \<and> yVelocity s' = 0 \<and>
        foodX s' = Some 50 \<and> foodY s' = Some 75 \<and> score s' = 3"
  using checkGameOver_frame [of "initialGlobals\<lparr>running := True,
             snake := [\<lparr>x = 500, y = 0\<rparr>, \<lparr>x = 475, y = 0\<rparr>],
             foodX := Some 50, foodY := Some 75, score := 3\<rparr>"
          "\<lparr>gameWidth = 500, gameHeight = 500\<rparr>"]
  by (simp add: initialGlobals_def unitSize_def)

section \<open>One frame: moving into the cell the tail leaves\<close>

text \<open>
  Claim C10. In a running state where the cell one step ahead of the head is the cell of
  the last segment, is on the board, is not the food and holds no other segment, one
  frame (\<open>moveSnake\<close> then \<open>checkGameOver\<close>) returns a state that is still running:
  the last segment has been dropped before the head is compared with the body.
\<close>

theorem tick_into_tail:
  assumes "running s" and "snake s = h # rest"
    and "\<lparr>x = x h + xVelocity s, y = y h + yVelocity s\<rparr> = last (snake s)"
    and "0 \<le> x h + xVelocity s" and "x h + xVelocity s < gameWidth b"
    and "0 \<le> y h + yVelocity s" and "y h + yVelocity s < gameHeight b"
    and "\<not> (foodX s = Some (x h + xVelocity s) \<and> foodY s = Some (y h + yVelocity s))"
    and "\<lparr>x = x h + xVelocity s, y = y h + yVelocity s\<rparr> \<notin> set (butlast (snake s))"
  shows "\<exists>s'. tick b r1 r2 s = Inr s' \<and> running s' \<and>
           snake s' = \<lparr>x = x h + xVelocity s, y = y h + yVelocity s\<rparr> # butlast (snake s)"
proof -
  let ?nh = "\<lparr>x = x h + xVelocity s, y = y h + yVelocity s\<rparr>"
  let ?s1 = "s\<lparr>snake := ?nh # butlast (snake s)\<rparr>"
  have m: "moveSnake b r1 r2 s = Inr ?s1"
    using assms(2,8) by (auto simp: moveSnake_def Let_def)
  have sn: "snake ?s1 = ?nh # butlast (snake s)"
    by simp
  have free: "\<forall>j. 1 \<le> j \<and> j < length (snake ?s1) \<longrightarrow> snake ?s1 ! j \<noteq> snake ?s1 ! 0"
  proof (intro allI impI)
    fix j
    assume j: "1 \<le> j \<and> j < length (snake ?s1)"
    then have "snake ?s1 ! j = butlast (snake s) ! (j - 1)"
      and "j - 1 < length (butlast (snake s))"
      by (auto simp: nth_Cons')
    then have "snake ?s1 ! j \<in> set (butlast (snake s))"
      by (metis nth_mem)
    with assms(9) show "snake ?s1 ! j \<noteq> snake ?s1 ! 0"
      by auto
  qed
  have "checkGameOver b ?s1 = Inr (?s1\<lparr>running := True\<rparr>)"
    unfolding checkGameOver_cons [OF sn] using free assms(1,4-7) by simp
  with m show ?thesis
    by (simp add: tick_def)
qed

theorem tick_into_tail_witness:
  "\<exists>s'. tick \<lparr>gameWidth = 500, gameHeight = 500\<rparr> 0 0
          \<lparr>running = True, xVelocity = 0, yVelocity = 25, foodX = Some 100, foodY = Some 100,
           score = 0,
           snake = [\<lparr>x = 25, y = 0\<rparr>, \<lparr>x = 0, y = 0\<rparr>, \<lparr>x = 0, y = 25\<rparr>, \<lparr>x = 25, y = 25\<rparr>]\<rparr>
        = Inr s' \<and> running s' \<and>
        snake s' = [\<lparr>x = 25, y = 25\<rparr>, \<lparr>x = 25, y = 0\<rparr>, \<lparr>x = 0, y = 0\<rparr>, \<lparr>x = 0, y = 25\<rparr>]"
  using tick_into_tail [of "\<lparr>running = True, xVelocity = 0, yVelocity = 25, foodX = Some 100,
           foodY = Some 100, score = 0,
           snake = [\<lparr>x = 25, y = 0\<rparr>, \<lparr>x = 0, y = 0\<rparr>, \<lparr>x = 0, y = 25\<rparr>, \<lparr>x = 25, y = 25\<rparr>]\<rparr>"
          "\<lparr>x = 25, y = 0\<rparr>" "[\<lparr>x = 0, y = 0\<rparr>, \<lparr>x = 0, y = 25\<rparr>, \<lparr>x = 25, y = 25\<rparr>]"
          "\<lparr>gameWidth = 500, gameHeight = 500\<rparr>" 0 0]
  by simp

section \<open>Reset\<close>

text \<open>
  Claim C8. From any state, running or not, \<open>resetGame\<close> (which ends by calling
  \<open>gameStart\<close>) leaves exactly the state the script has after loading with the same
  draws: score 0, velocity \<open>(unitSize, 0)\<close>, the five segments from \<open>(4u, 0)\<close> down to
  \<open>(0, 0)\<close>, fresh food at the coordinates \<open>createFood\<close> computes from the two draws
  (each draw scaled to \<open>[0, gameWidth - 25]\<close>, divided by 25, rounded and multiplied by
  25), and the flag \<open>running\<close> set.
\<close>

theorem resetGame_initial:
  "resetGame b r1 r2 s = gameStart b r1 r2 initialGlobals \<and>
   score (resetGame b r1 r2 s) = 0 \<and>
   xVelocity (resetGame b r1 r2 s) = unitSize \<and> yVelocity (resetGame b r1 r2 s) = 0 \<and>
   snake (resetGame b r1 r2 s) =
     [\<lparr>x = 4 * unitSize, y = 0\<rparr>, \<lparr>x = 3 * unitSize, y = 0\<rparr>, \<lparr>x = 2 * unitSize, y = 0\<rparr>,
      \<lparr>x = unitSize, y = 0\<rparr>, \<lparr>x = 0, y = 0\<rparr>] \<and>
   foodX (resetGame b r1 r2 s) = Some (\<lfloor>r1 * of_int (gameWidth b - 25) / 25 + 1 / 2\<rfloor> * 25) \<and>
   foodY (resetGame b r1 r2 s) = Some (\<lfloor>r2 * of_int (gameWidth b - 25) / 25 + 1 / 2\<rfloor> * 25) \<and>
   running (resetGame b r1 r2 s)"
  by (simp add: resetGame_def gameStart_def createFood_def randomFood_def Math_round_def
        initialGlobals_def unitSize_def)

section \<open>Invariants of the reachable states\<close>

lemma moveSnake_nonempty: "moveSnake b r1 r2 s = Inr s' \<Longrightarrow> snake s' \<noteq> []"
  by (auto simp: moveSnake_def createFood_def Let_def split: list.splits if_splits)

lemma moveSnake_velocity:
  "moveSnake b r1 r2 s = Inr s' \<Longrightarrow> xVelocity s' = xVelocity s \<and> yVelocity s' = yVelocity s"
  by (auto simp: moveSnake_def createFood_def Let_def split: list.splits if_splits)

lemma checkGameOver_unchanged:
  assumes "checkGameOver b s = Inr s'"
  shows "snake s' = snake s \<and> xVelocity s' = xVelocity s \<and> yVelocity s' = yVelocity s"
proof (cases "snake s")
  case Nil
  with assms show ?thesis
    by (simp add: checkGameOver_def)
next
  case (Cons h rest)
  from assms show ?thesis
    unfolding checkGameOver_cons [OF Cons] by auto
qed

lemma changeDirection_snake: "snake (changeDirection k s) = snake s"
  by (simp add: changeDirection_def Let_def)

lemma changeDirection_unitStep: "unitStep s \<Longrightarrow> unitStep (changeDirection k s)"
  by (auto simp: changeDirection_def unitStep_def Let_def)

lemma resetGame_fields:
  "length (snake (resetGame b r1 r2 s)) = 5 \<and> unitStep (resetGame b r1 r2 s)"
  by (simp add: resetGame_def gameStart_def createFood_def unitStep_def)

lemma loaded_fields:
  "length (snake (gameStart b r1 r2 initialGlobals)) = 5 \<and>
   xVelocity (gameStart b r1 r2 initialGlobals) = unitSize \<and>
   yVelocity (gameStart b r1 r2 initialGlobals) = 0"
  by (simp add: gameStart_def createFood_def initialGlobals_def)

lemma first_frame:
  "tick \<lparr>gameWidth = 500, gameHeight = 500\<rparr> 0 0
     (gameStart \<lparr>gameWidth = 500, gameHeight = 500\<rparr> 0 0 initialGlobals) =
   Inr \<lparr>running = True, xVelocity = 25, yVelocity = 0, foodX = Some 0, foodY = Some 0,
        score = 0,
        snake = [\<lparr>x = 125, y = 0\<rparr>, \<lparr>x = 100, y = 0\<rparr>, \<lparr>x = 75, y = 0\<rparr>,
                 \<lparr>x = 50, y = 0\<rparr>, \<lparr>x = 25, y = 0\<rparr>]\<rparr>"
proof -
  let ?s1 = "\<lparr>running = True, xVelocity = 25, yVelocity = 0, foodX = Some 0, foodY = Some 0,
        score = 0,
        snake = [\<lparr>x = 125, y = 0\<rparr>, \<lparr>x = 100, y = 0\<rparr>, \<lparr>x = 75, y = 0\<rparr>,
                 \<lparr>x = 50, y = 0\<rparr>, \<lparr>x = 25, y = 0\<rparr>]\<rparr>"
  have m: "moveSnake \<lparr>gameWidth = 500, gameHeight = 500\<rparr> 0 0
     (gameStart \<lparr>gameWidth = 500, gameHeight = 500\<rparr> 0 0 initialGlobals) = Inr ?s1"
    by (simp add: moveSnake_def gameStart_def createFood_def initialGlobals_def randomFood_def
          Math_round_def unitSize_def)
  have sn: "snake ?s1 = \<lparr>x = 125, y = 0\<rparr> #
      [\<lparr>x = 100, y = 0\<rparr>, \<lparr>x = 75, y = 0\<rparr>, \<lparr>x = 50, y = 0\<rparr>, \<lparr>x = 25, y = 0\<rparr>]"
    by simp
  have "checkGameOver \<lparr>gameWidth = 500, gameHeight = 500\<rparr> ?s1 = Inr ?s1"
    unfolding checkGameOver_cons [OF sn] by (auto simp: nth_Cons')
  with m show ?thesis
    by (simp add: tick_def)
qed

lemma tick_reachable:
  assumes "reachable b s" and "tick b r1 r2 s = Inr s'"
  shows "reachable b s'"
proof (cases "moveSnake b r1 r2 s")
  case (Inl e)
  with assms(2) show ?thesis
    by (simp add: tick_def)
next
  case (Inr s1)
  with assms(2) have "checkGameOver b s1 = Inr s'"
    by (simp add: tick_def)
  with moved [OF assms(1) Inr] show ?thesis
    by (rule checked)
qed

text \<open>
  Claim C6. The snake is never empty: after loading it has five segments, and every state
  reachable through \<open>moveSnake\<close>, \<open>checkGameOver\<close>, \<open>changeDirection\<close>,
  \<open>resetGame\<close> and \<open>displayGameOver\<close> has at least one.
\<close>

theorem reachable_snake_nonempty:
  assumes "reachable b s"
  shows "length (snake (gameStart b r1 r2 initialGlobals)) = 5 \<and> 1 \<le> length (snake s)"
proof -
  from assms have "snake s \<noteq> []"
  proof (induction rule: reachable.induct)
    case (loaded r1 r2)
    then show ?case
      using loaded_fields [of b r1 r2] by auto
  next
    case (moved s r1 r2 s')
    then show ?case
      by (simp add: moveSnake_nonempty)
  next
    case (checked s s')
    then show ?case
      by (simp add: checkGameOver_unchanged)
  next
    case (keydown s k)
    then show ?case
      by (simp add: changeDirection_snake)
  next
    case (clicked s r1 r2)
    show ?case
      using resetGame_fields [of b r1 r2 s] by auto
  next
    case (ended s)
    then show ?case
      by (simp add: displayGameOver_def)
  qed
  then have "1 \<le> length (snake s)"
    by (cases "snake s") auto
  then show ?thesis
    using loaded_fields by simp
qed

theorem reachable_snake_nonempty_witness:
  "reachable \<lparr>gameWidth = 500, gameHeight = 500\<rparr>
     \<lparr>running = True, xVelocity = 25, yVelocity = 0, foodX = Some 0, foodY = Some 0,
      score = 0,
      snake = [\<lparr>x = 125, y = 0\<rparr>, \<lparr>x = 100, y = 0\<rparr>, \<lparr>x = 75, y = 0\<rparr>,
               \<lparr>x = 50, y = 0\<rparr>, \<lparr>x = 25, y = 0\<rparr>]\<rparr> \<and>
   1 \<le> length [\<lparr>x = 125, y = 0\<rparr>, \<lparr>x = 100, y = 0\<rparr>, \<lparr>x = 75, y = 0\<rparr>,
                \<lparr>x = 50, y = 0\<rparr>, \<lparr>x = 25, y = 0\<rparr>]"
proof -
  have r: "reachable \<lparr>gameWidth = 500, gameHeight = 500\<rparr>
     \<lparr>running = True, xVelocity = 25, yVelocity = 0, foodX = Some 0, foodY = Some 0,
      score = 0,
      snake = [\<lparr>x = 125, y = 0\<rparr>, \<lparr>x = 100, y = 0\<rparr>, \<lparr>x = 75, y = 0\<rparr>,
               \<lparr>x = 50, y = 0\<rparr>, \<lparr>x = 25, y = 0\<rparr>]\<rparr>"
    by (rule tick_reachable [OF loaded first_frame])
  show ?thesis
    using r reachable_snake_nonempty [OF r] by simp
qed

text \<open>
  Claim C7. The velocity is always one of \<open>(u, 0)\<close>, \<open>(-u, 0)\<close>, \<open>(0, u)\<close>,
  \<open>(0, -u)\<close> with \<open>u = unitSize\<close>, and never \<open>(0, 0)\<close>: it is \<open>(u, 0)\<close> after
  loading, and every reachable state (in particular after \<open>changeDirection\<close> and
  \<open>resetGame\<close>) has such a velocity.
\<close>

theorem reachable_velocity:
  assumes "reachable b s"
  shows "(xVelocity (gameStart b r1 r2 initialGlobals),
          yVelocity (gameStart b r1 r2 initialGlobals)) = (unitSize, 0) \<and>
         (xVelocity s, yVelocity s) \<in>
           {(unitSize, 0), (- unitSize, 0), (0, unitSize), (0, - unitSize)} \<and>
         (xVelocity s, yVelocity s) \<noteq> (0, 0)"
proof -
  from assms have u: "unitStep s"
  proof (induction rule: reachable.induct)
    case (loaded r1 r2)
    then show ?case
      using loaded_fields [of b r1 r2] by (simp add: unitStep_def)
  next
    case (moved s r1 r2 s')
    then show ?case
      using moveSnake_velocity [of b r1 r2 s s'] by (simp add: unitStep_def)
  next
    case (checked s s')
    then show ?case
      using checkGameOver_unchanged [of b s s'] by (simp add: unitStep_def)
  next
    case (keydown s k)
    then show ?case
      by (simp add: changeDirection_unitStep)
  next
    case (clicked s r1 r2)
    show ?case
      using resetGame_fields [of b r1 r2 s] by simp
  next
    case (ended s)
    then show ?case
      by (simp add: displayGameOver_def unitStep_def)
  qed
  then have "(xVelocity s, yVelocity s) \<noteq> (0, 0)"
    by (auto simp: unitStep_def unitSize_def)
  with u show ?thesis
    using loaded_fields [of b r1 r2] by (auto simp: unitStep_def)
qed

theorem reachable_velocity_witness:
  "reachable \<lparr>gameWidth = 500, gameHeight = 500\<rparr>
     (changeDirection ''ArrowUp''
        (gameStart \<lparr>gameWidth = 500, gameHeight = 500\<rparr> 0 0 initialGlobals)) \<and>
   (xVelocity (changeDirection ''ArrowUp''
        (gameStart \<lparr>gameWidth = 500, gameHeight = 500\<rparr> 0 0 initialGlobals)),
    yVelocity (changeDirection ''ArrowUp''
        (gameStart \<lparr>gameWidth = 500, gameHeight = 500\<rparr> 0 0 initialGlobals))) = (0, - 25)"
proof -
  have r: "reachable \<lparr>gameWidth = 500, gameHeight = 500\<rparr>
     (changeDirection ''ArrowUp''
        (gameStart \<lparr>gameWidth = 500, gameHeight = 500\<rparr> 0 0 initialGlobals))"
    by (rule keydown, rule loaded)
  show ?thesis
    using r reachable_velocity [OF r]
    by (simp add: changeDirection_def gameStart_def createFood_def initialGlobals_def
          unitSize_def)
qed

end
